theory Spec2Isabelle
  imports Main "HOL-Library.Word"
begin

section \<open>The serial port and the scheduler, as a trace\<close>

text \<open>
  Everything the sketch does is a call on the \<open>Serial\<close> object, a call of \<open>yield()\<close>,
  a call of \<open>delay()\<close> or a call on the IR sender. A run is the list of these calls in
  the order they happen; every function below takes the trace so far and returns it
  extended.
\<close>

datatype event =
    Out string              \<comment> \<open>the characters one \<open>Serial.print\<close>/\<open>println\<close>/\<open>printf\<close> call writes\<close>
  | Yield                   \<comment> \<open>\<open>yield()\<close>\<close>
  | Delay nat               \<comment> \<open>\<open>delay(ms)\<close>\<close>
  | SendYamato "8 word list"  \<comment> \<open>\<open>irsend.sendYamato(data)\<close>\<close>

type_synonym trace = "event list"

text \<open>The characters that reached the serial port.\<close>

fun text_of :: "trace \<Rightarrow> string" where
  "text_of [] = []"
| "text_of (Out s # es) = s @ text_of es"
| "text_of (Yield # es) = text_of es"
| "text_of (Delay n # es) = text_of es"
| "text_of (SendYamato d # es) = text_of es"

text \<open>\<open>Print::println\<close> ends the line with carriage return and line feed.\<close>

definition CRLF :: string where
  "CRLF = [CHR 0x0D, CHR 0x0A]"

definition Serial_print :: "string \<Rightarrow> trace \<Rightarrow> trace" where
  "Serial_print str s = s @ [Out str]"

definition Serial_println :: "string \<Rightarrow> trace \<Rightarrow> trace" where
  "Serial_println str s = s @ [Out (str @ CRLF)]"

subsection \<open>Numbers as text\<close>

definition digit :: "nat \<Rightarrow> char" where
  "digit d = ''0123456789ABCDEFGHIJKLMNOPQRSTUVWXYZ'' ! d"

text \<open>
  \<open>Print::printNumber(n, base)\<close> of the Arduino core: most significant digit first,
  upper-case letters above 9, no padding, a base below 2 taken as 10.
\<close>

function printNumber :: "nat \<Rightarrow> nat \<Rightarrow> string" where
  "printNumber n base =
     (if base < 2 then printNumber n 10
      else if n < base then [digit n]
      else printNumber (n div base) base @ [digit (n mod base)])"
  by pat_completeness auto
termination
  by (relation "measures [\<lambda>(n, b). if b < 2 then 1 else 0, \<lambda>(n, b). n]") auto

declare printNumber.simps [simp del]

definition DEC :: nat where "DEC = 10"
definition HEX :: nat where "HEX = 16"

text \<open>A signed \<open>int\<close> in decimal: \<open>Serial.print(int, DEC)\<close> and the conversion \<open>%d\<close>.\<close>

definition print_int :: "int \<Rightarrow> string" where
  "print_int n = (if n < 0 then ''-'' @ printNumber (nat (- n)) 10 else printNumber (nat n) 10)"

text \<open>The conversion \<open>%6d\<close>: right-justified in six columns, never cut.\<close>

definition printf_6d :: "int \<Rightarrow> string" where
  "printf_6d n = replicate (6 - length (print_int n)) CHR '' '' @ print_int n"

section \<open>The data the sketch reads\<close>

text \<open>
  \<open>decode_type_t\<close> is declared by the IR library; the constructors are the case labels
  of \<open>encoding\<close>, and \<open>UNLISTED\<close> stands for every enumerator of the library that the
  switch does not name (they reach its \<open>default\<close>).
\<close>

datatype decode_type_t =
    UNKNOWN | NEC | NEC_LIKE | SONY | RC5 | RC5X | RC6 | RCMM | DISH | SHARP | JVC
  | SANYO | SANYO_LC7461 | MITSUBISHI | SAMSUNG | LG | WHYNTER | AIWA_RC_T501
  | PANASONIC | DENON | COOLIX | YAMATO | UNLISTED

text \<open>
  The fields of \<open>decode_results\<close> that the sketch reads. \<open>rawbuf\<close> is a pointer in the
  source; here it is the list of the cells of the buffer behind it. The sketch reads
  \<open>rawbuf[i]\<close> only for \<open>i < rawlen\<close>, and every such read is inside the buffer exactly
  when \<open>rawbuf_in_bounds\<close> holds, as it does for what the receiver delivers. A read
  beyond the buffer gives some 16-bit value that nothing is known about; no statement
  below says anything about such a value.
\<close>

record decode_results =
  decode_type :: decode_type_t
  "value" :: "64 word"
  address :: "32 word"
  command :: "32 word"
  bits :: "16 word"
  rawbuf :: "16 word list"
  rawlen :: "16 word"
  overflow :: bool
  repeat :: bool

definition rawbuf_in_bounds :: "decode_results \<Rightarrow> bool" where
  "rawbuf_in_bounds results = (unat (rawlen results) \<le> length (rawbuf results))"

text \<open>
  What the sketch takes from the IR library and that is not part of this file: the macro
  \<open>RAWTICK\<close> (microseconds per tick, an unsigned constant of at most 16 bits) and the
  function \<open>serialPrintUint64(value, base)\<close>, given here by the text it writes.
\<close>

record irlib =
  RAWTICK :: "16 word"
  serialPrintUint64 :: "64 word \<Rightarrow> nat \<Rightarrow> string"

text \<open>
  Modelled from the spec: \<open>serialPrintUint64\<close> is defined in the library's IRutils, which
  is not in this file. The spec (4.6, scenario C) describes the value it writes in base 16
  as "16 hex digits, zero-padded".
\<close>

definition serialPrintUint64_spec :: "64 word \<Rightarrow> nat \<Rightarrow> string" where
  "serialPrintUint64_spec v base =
     replicate (16 - length (printNumber (unat v) base)) CHR ''0'' @ printNumber (unat v) base"


text \<open>
  \<open>UINT16_MAX\<close> is the \<open>int\<close> constant 65535. Every use next to a \<open>uint32_t\<close> converts
  it to unsigned 32 bits, which is the type it has here.
\<close>

definition UINT16_MAX :: "32 word" where
  "UINT16_MAX = 65535"

section \<open>Ticks to microseconds\<close>

text \<open>
  \<open>results->rawbuf[i] * RAWTICK\<close>: the \<open>uint16_t\<close> tick is promoted to the 32-bit
  \<open>int\<close> of the target, converted to \<open>unsigned\<close> for the unsigned constant, and the
  product is taken modulo \<open>2^32\<close>.
\<close>

definition ticks_to_usecs :: "16 word \<Rightarrow> 16 word \<Rightarrow> 32 word" where
  "ticks_to_usecs tick unit = ucast tick * ucast unit"

definition rawbuf_usecs :: "irlib \<Rightarrow> decode_results \<Rightarrow> nat \<Rightarrow> 32 word" where
  "rawbuf_usecs lib results i = ticks_to_usecs (rawbuf results ! i) (RAWTICK lib)"

section \<open>The chunking loop of dumpCode\<close>

text \<open>
  \<^verbatim>\<open>for (usecs = ...; usecs > UINT16_MAX; usecs -= UINT16_MAX)
    Serial.printf("%d, 0", UINT16_MAX);\<close>
  The function returns the value of \<open>usecs\<close> when the loop is left, and the trace.
\<close>

function dumpCode_chunk :: "32 word \<Rightarrow> trace \<Rightarrow> 32 word \<times> trace" where
  "dumpCode_chunk usecs s =
     (if usecs > UINT16_MAX
      then dumpCode_chunk (usecs - UINT16_MAX)
             (Serial_print (print_int (sint UINT16_MAX) @ '', 0'') s)
      else (usecs, s))"
  by pat_completeness auto
termination
proof (relation "measure (\<lambda>(usecs, s). unat usecs)")
  show "wf (measure (\<lambda>(usecs, s). unat usecs))" by simp
next
  fix usecs :: "32 word" and s :: trace
  assume "UINT16_MAX < usecs"
  then have "unat (usecs - UINT16_MAX) < unat usecs"
    by (simp add: UINT16_MAX_def unat_sub word_less_nat_alt word_le_nat_alt)
  then show "((usecs - UINT16_MAX, Serial_print (print_int (sint UINT16_MAX) @ '', 0'') s), (usecs, s))
               \<in> measure (\<lambda>(usecs, s). unat usecs)"
    by simp
qed

declare dumpCode_chunk.simps [simp del]

section \<open>encoding and dumpInfo\<close>

fun encoding_name :: "decode_type_t \<Rightarrow> string" where
  "encoding_name UNKNOWN = ''UNKNOWN''"
| "encoding_name NEC = ''NEC''"
| "encoding_name NEC_LIKE = ''NEC (non-strict)''"
| "encoding_name SONY = ''SONY''"
| "encoding_name RC5 = ''RC5''"
| "encoding_name RC5X = ''RC5X''"
| "encoding_name RC6 = ''RC6''"
| "encoding_name RCMM = ''RCMM''"
| "encoding_name DISH = ''DISH''"
| "encoding_name SHARP = ''SHARP''"
| "encoding_name JVC = ''JVC''"
| "encoding_name SANYO = ''SANYO''"
| "encoding_name SANYO_LC7461 = ''SANYO_LC7461''"
| "encoding_name MITSUBISHI = ''MITSUBISHI''"
| "encoding_name SAMSUNG = ''SAMSUNG''"
| "encoding_name LG = ''LG''"
| "encoding_name WHYNTER = ''WHYNTER''"
| "encoding_name AIWA_RC_T501 = ''AIWA_RC_T501''"
| "encoding_name PANASONIC = ''PANASONIC''"
| "encoding_name DENON = ''DENON''"
| "encoding_name COOLIX = ''COOLIX''"
| "encoding_name YAMATO = ''YAMATO''"
| "encoding_name UNLISTED = ''UNKNOWN''"

definition encoding :: "decode_results \<Rightarrow> trace \<Rightarrow> trace" where
  "encoding results s =
     (let s1 = Serial_print (encoding_name (decode_type results)) s
      in if repeat results then Serial_print '' (Repeat)'' s1 else s1)"



section \<open>getCookedLength\<close>

text \<open>
  The loop counters \<open>i\<close> of the sketch are \<open>uint16_t\<close> and stay below \<open>rawlen\<close>, itself
  a \<open>uint16_t\<close>, so \<open>i++\<close> never wraps: they are natural numbers here. The bound
  \<open>results->rawlen - 1\<close> is computed in \<open>int\<close> and is \<open>-1\<close> for \<open>rawlen = 0\<close>.
  \<open>length\<close> is a \<open>uint16_t\<close>: \<open>length += e\<close> adds in unsigned 32 bits and keeps the low
  16 bits.
\<close>

function getCookedLength_loop :: "irlib \<Rightarrow> decode_results \<Rightarrow> nat \<Rightarrow> 16 word \<Rightarrow> 16 word" where
  "getCookedLength_loop lib results i len =
     (if int i < uint (rawlen results) - 1
      then getCookedLength_loop lib results (i + 1)
             (ucast ((ucast len :: 32 word) + (rawbuf_usecs lib results i div UINT16_MAX) * 2))
      else len)"
  by pat_completeness auto
termination
proof (relation "measure (\<lambda>(lib, results, i, len). unat (rawlen results) - i)")
  show "wf (measure (\<lambda>(lib, results, i, len). unat (rawlen results) - i))" by simp
next
  fix lib :: irlib and results :: decode_results and i :: nat and len :: "16 word"
  assume a: "int i < uint (rawlen results) - 1"
  have "uint (rawlen results) = int (unat (rawlen results))" by simp
  with a have "unat (rawlen results) - (i + 1) < unat (rawlen results) - i" by linarith
  then show "((lib, results, i + 1,
                ucast ((ucast len :: 32 word) + (rawbuf_usecs lib results i div UINT16_MAX) * 2)),
               (lib, results, i, len))
             \<in> measure (\<lambda>(lib, results, i, len). unat (rawlen results) - i)"
    by simp
qed

declare getCookedLength_loop.simps [simp del]

definition getCookedLength :: "irlib \<Rightarrow> decode_results \<Rightarrow> 16 word" where
  "getCookedLength lib results = getCookedLength_loop lib results 0 (rawlen results - 1)"

section \<open>dumpRaw\<close>

text \<open>Lines 126 to 131: the mark or space marker and the value, \<open>%6d\<close> of the product.\<close>

definition dumpRaw_entry :: "irlib \<Rightarrow> decode_results \<Rightarrow> nat \<Rightarrow> trace \<Rightarrow> trace" where
  "dumpRaw_entry lib results i s =
     (let s1 = (if i mod 2 = 0 then Serial_print ''-'' s else Serial_print ''   +'' s)
      in Serial_print (printf_6d (sint (rawbuf_usecs lib results i))) s1)"

definition dumpRaw_body :: "irlib \<Rightarrow> decode_results \<Rightarrow> nat \<Rightarrow> trace \<Rightarrow> trace" where
  "dumpRaw_body lib results i s =
     (let s1 = (if i mod 100 = 0 then s @ [Yield] else s);
          s2 = dumpRaw_entry lib results i s1;
          s3 = (if int i < uint (rawlen results) - 1 then Serial_print '', '' s2 else s2)
      in if \<not> (i mod 8 \<noteq> 0) then Serial_println [] s3 else s3)"

function dumpRaw_loop :: "irlib \<Rightarrow> decode_results \<Rightarrow> nat \<Rightarrow> trace \<Rightarrow> trace" where
  "dumpRaw_loop lib results i s =
     (if i < unat (rawlen results)
      then dumpRaw_loop lib results (i + 1) (dumpRaw_body lib results i s)
      else s)"
  by pat_completeness auto
termination
  by (relation "measure (\<lambda>(lib, results, i, s). unat (rawlen results) - i)") auto

declare dumpRaw_loop.simps [simp del]

definition dumpRaw :: "irlib \<Rightarrow> decode_results \<Rightarrow> trace \<Rightarrow> trace" where
  "dumpRaw lib results s =
     (let s1 = Serial_print ''Timing['' s;
          s2 = Serial_print (print_int (uint (rawlen results) - 1)) s1;
          s3 = Serial_println '']: '' s2;
          s4 = dumpRaw_loop lib results 1 s3
      in Serial_println [] s4)"

section \<open>dumpCode\<close>

text \<open>Lines 150 to 158: one pass of the outer loop.\<close>

definition dumpCode_body :: "irlib \<Rightarrow> decode_results \<Rightarrow> nat \<Rightarrow> trace \<Rightarrow> trace" where
  "dumpCode_body lib results i s =
     (let (usecs, s1) = dumpCode_chunk (rawbuf_usecs lib results i) s;
          s2 = Serial_print (printNumber (unat usecs) DEC) s1;
          s3 = (if int i < uint (rawlen results) - 1 then Serial_print '', '' s2 else s2)
      in if i mod 2 = 0 then Serial_print '' '' s3 else s3)"

function dumpCode_loop :: "irlib \<Rightarrow> decode_results \<Rightarrow> nat \<Rightarrow> trace \<Rightarrow> trace" where
  "dumpCode_loop lib results i s =
     (if i < unat (rawlen results)
      then dumpCode_loop lib results (i + 1) (dumpCode_body lib results i s)
      else s)"
  by pat_completeness auto
termination
  by (relation "measure (\<lambda>(lib, results, i, s). unat (rawlen results) - i)") auto

declare dumpCode_loop.simps [simp del]

text \<open>Lines 142 to 171: the array declaration and its comment.\<close>

definition dumpCode_array :: "irlib \<Rightarrow> decode_results \<Rightarrow> trace \<Rightarrow> trace" where
  "dumpCode_array lib results s =
     (let s1 = Serial_print ''uint16_t '' s;
          s2 = Serial_print ''rawData['' s1;
          s3 = Serial_print (print_int (uint (getCookedLength lib results))) s2;
          s4 = Serial_print ''] = {'' s3;
          s5 = dumpCode_loop lib results 1 s4;
          s6 = Serial_print ''};'' s5;
          s7 = Serial_print ''  // '' s6;
          s8 = encoding results s7;
          s9 = Serial_print '' '' s8;
          s10 = Serial_print (serialPrintUint64 lib (value results) HEX) s9
      in Serial_println [] s10)"

text \<open>Lines 173 to 191: the declarations for a decoded message.\<close>

definition dumpCode_known :: "irlib \<Rightarrow> decode_results \<Rightarrow> trace \<Rightarrow> trace" where
  "dumpCode_known lib results s =
     (if decode_type results \<noteq> UNKNOWN
      then
        (let s1 =
               (if address results > 0 \<or> command results > 0
                then
                  (let t1 = Serial_print ''uint32_t address = 0x'' s;
                       t2 = Serial_print (printNumber (unat (address results)) HEX) t1;
                       t3 = Serial_println '';'' t2;
                       t4 = Serial_print ''uint32_t command = 0x'' t3;
                       t5 = Serial_print (printNumber (unat (command results)) HEX) t4
                   in Serial_println '';'' t5)
                else s);
             s2 = Serial_print ''uint64_t data = 0x'' s1;
             s3 = Serial_print (serialPrintUint64 lib (value results) 16) s2
         in Serial_println '';'' s3)
      else s)"

definition dumpCode :: "irlib \<Rightarrow> decode_results \<Rightarrow> trace \<Rightarrow> trace" where
  "dumpCode lib results s = dumpCode_known lib results (dumpCode_array lib results s)"

section \<open>loop\<close>

definition something :: "8 word list" where
  "something = [0x23, 0xCB, 0x26, 0x01, 0x00,
                0x24, 0x03, 0x06, 0x22, 0x00, 0x00, 0x03, 0x04,
                0x6B]"


text \<open>
  \<open>loop\<close> as it is compiled. \<open>results\<close> is the global the receiver would fill; nothing
  in the compiled body reads it.
\<close>

definition loop :: "irlib \<Rightarrow> decode_results \<Rightarrow> trace \<Rightarrow> trace" where
  "loop lib results s =
     (let s1 = s @ [Delay 2000];
          s2 = Serial_println ''send YAMATO'' s1
      in s2 @ [SendYamato something])"

section \<open>Sample inputs\<close>

text \<open>A library with two microseconds per tick, and a capture holding the given ticks.\<close>

definition lib_tick2 :: irlib where
  "lib_tick2 = \<lparr>RAWTICK = 2, serialPrintUint64 = serialPrintUint64_spec\<rparr>"

definition capture :: "16 word list \<Rightarrow> decode_results" where
  "capture ticks =
     \<lparr>decode_type = UNKNOWN, value = 0, address = 0, command = 0, bits = 0,
      rawbuf = ticks, rawlen = of_nat (length ticks), overflow = False, repeat = False\<rparr>"

text \<open>The same library with one microsecond per tick.\<close>

definition lib_tick1 :: irlib where
  "lib_tick1 = \<lparr>RAWTICK = 1, serialPrintUint64 = serialPrintUint64_spec\<rparr>"

section \<open>Facts about the chunking loop\<close>

lemma filler_text: "print_int (sint UINT16_MAX) @ '', 0'' = ''65535, 0''"
  by (simp add: UINT16_MAX_def print_int_def digit_def printNumber.simps)

lemma dumpCode_chunk_stop:
  "\<not> UINT16_MAX < usecs \<Longrightarrow> dumpCode_chunk usecs s = (usecs, s)"
  by (subst dumpCode_chunk.simps) simp

lemma dumpCode_chunk_step:
  "UINT16_MAX < usecs \<Longrightarrow>
     dumpCode_chunk usecs s = dumpCode_chunk (usecs - UINT16_MAX) (s @ [Out ''65535, 0''])"
  by (subst dumpCode_chunk.simps) (simp add: filler_text Serial_print_def)

lemma chunk_count_step:
  "65535 < n \<Longrightarrow> (n - 1) div 65535 = Suc ((n - 65535 - 1) div 65535)" for n :: nat
  using le_div_geq [of 65535 "n - 1"] by (simp add: algebra_simps)

lemma chunk_small:
  assumes "\<not> UINT16_MAX < usecs"
  shows "unat usecs \<le> 65535" and "(unat usecs - 1) div 65535 = 0"
  using assms by (simp_all add: UINT16_MAX_def word_less_nat_alt)

lemma chunk_big:
  assumes "UINT16_MAX < usecs"
  shows "65535 < unat usecs" and "unat (usecs - UINT16_MAX) = unat usecs - 65535"
proof -
  show big: "65535 < unat usecs"
    using assms by (simp add: UINT16_MAX_def word_less_nat_alt)
  then show "unat (usecs - UINT16_MAX) = unat usecs - 65535"
    by (simp add: UINT16_MAX_def unat_sub word_le_nat_alt)
qed

lemma dumpCode_chunk_snd:
  "snd (dumpCode_chunk d s) = s @ replicate ((unat d - 1) div 65535) (Out ''65535, 0'')"
proof (induction d s rule: dumpCode_chunk.induct)
  case (1 usecs s)
  show ?case
  proof (cases "usecs > UINT16_MAX")
    case False
    show ?thesis
      by (simp only: dumpCode_chunk_stop [OF False] chunk_small(2) [OF False] snd_conv
            replicate_0 append_Nil2)
  next
    case True
    have "snd (dumpCode_chunk usecs s) =
            snd (dumpCode_chunk (usecs - UINT16_MAX) (s @ [Out ''65535, 0'']))"
      by (simp only: dumpCode_chunk_step [OF True])
    also have "\<dots> = (s @ [Out ''65535, 0''])
                  @ replicate ((unat usecs - 65535 - 1) div 65535) (Out ''65535, 0'')"
      using "1.IH" [OF True] by (simp only: filler_text chunk_big(2) [OF True] Serial_print_def)
    also have "\<dots> = s @ replicate ((unat usecs - 1) div 65535) (Out ''65535, 0'')"
      by (simp only: chunk_count_step [OF chunk_big(1) [OF True]] replicate_Suc
            append_assoc append_Cons append_Nil)
    finally show ?thesis .
  qed
qed

lemma dumpCode_chunk_fst:
  "unat (fst (dumpCode_chunk d s)) + ((unat d - 1) div 65535) * 65535 = unat d"
proof (induction d s rule: dumpCode_chunk.induct)
  case (1 usecs s)
  show ?case
  proof (cases "usecs > UINT16_MAX")
    case False
    show ?thesis
      using chunk_small(2) [OF False] by (simp add: dumpCode_chunk_stop [OF False])
  next
    case True
    have "unat (fst (dumpCode_chunk (usecs - UINT16_MAX) (s @ [Out ''65535, 0''])))
         + ((unat usecs - 65535 - 1) div 65535) * 65535 = unat usecs - 65535"
      using "1.IH" [OF True] by (simp only: filler_text chunk_big(2) [OF True] Serial_print_def)
    then show ?thesis
      using chunk_big(1) [OF True] chunk_count_step [OF chunk_big(1) [OF True]]
      by (simp add: dumpCode_chunk_step [OF True])
  qed
qed

lemma dumpCode_chunk_fst_le: "unat (fst (dumpCode_chunk d s)) \<le> 65535"
proof (induction d s rule: dumpCode_chunk.induct)
  case (1 usecs s)
  show ?case
  proof (cases "usecs > UINT16_MAX")
    case False
    show ?thesis
      by (simp add: dumpCode_chunk_stop [OF False] chunk_small(1) [OF False])
  next
    case True
    show ?thesis
      using "1.IH" [OF True]
      by (simp only: dumpCode_chunk_step [OF True] filler_text Serial_print_def)
  qed
qed

lemma dumpCode_chunk_fst_pos: "d \<noteq> 0 \<Longrightarrow> fst (dumpCode_chunk d s) \<noteq> 0"
proof (induction d s rule: dumpCode_chunk.induct)
  case (1 usecs s)
  show ?case
  proof (cases "usecs > UINT16_MAX")
    case False
    with "1.prems" show ?thesis by (simp add: dumpCode_chunk_stop [OF False])
  next
    case True
    have "unat (usecs - UINT16_MAX) \<noteq> 0"
      using chunk_big [OF True] by simp
    then have nz: "usecs - UINT16_MAX \<noteq> 0"
      by auto
    show ?thesis
      using "1.IH" [OF True nz]
      by (simp add: dumpCode_chunk_step [OF True] filler_text Serial_print_def)
  qed
qed

lemma chunk_count_le: "(unat (d :: 32 word) - 1) div 65535 \<le> 65536"
proof -
  have "unat d < 2 ^ 32" using unsigned_less [of d] by simp
  then have "unat d - 1 \<le> 4294967294" by simp
  then have "(unat d - 1) div 65535 \<le> 4294967294 div 65535" by (rule div_le_mono)
  then show ?thesis by simp
qed

lemma dumpCode_chunk_eq:
  "dumpCode_chunk d s =
     (fst (dumpCode_chunk d s), s @ replicate ((unat d - 1) div 65535) (Out ''65535, 0''))"
  by (metis dumpCode_chunk_snd prod.collapse)

section \<open>Facts about the conversion of ticks\<close>

lemma unat_ucast_16_32: "unat (ucast (t :: 16 word) :: 32 word) = unat t"
proof -
  have "unat t < 2 ^ 16" using unsigned_less [of t] by simp
  then have "unat t < 2 ^ 32" by simp
  then show ?thesis by (simp add: unsigned_ucast_eq take_bit_nat_eq_self)
qed

lemma unat_ticks_to_usecs: "unat (ticks_to_usecs t u) = unat t * unat u"
proof -
  have "unat t < 2 ^ 16" "unat u < 2 ^ 16"
    using unsigned_less [of t] unsigned_less [of u] by simp_all
  then have "unat t * unat u < 2 ^ 16 * 2 ^ 16"
    by (intro mult_strict_mono) simp_all
  then have "unat t * unat u < 2 ^ 32" by simp
  then show ?thesis
    by (simp add: ticks_to_usecs_def unat_word_ariths unat_ucast_16_32)
qed

section \<open>Facts about the text of numbers and about dumpRaw\<close>

lemma text_of_append: "text_of (a @ b) = text_of a @ text_of b"
  by (induction a rule: text_of.induct) simp_all

lemma digit_decimal: "d < 10 \<Longrightarrow> digit d \<in> set ''0123456789''"
proof -
  assume "d < 10"
  then have "d \<in> {0, 1, 2, 3, 4, 5, 6, 7, 8, 9}" by auto
  then show ?thesis by (auto simp: digit_def)
qed

lemma printNumber_decimal_chars: "set (printNumber n 10) \<subseteq> set ''0123456789''"
proof (induction n "10::nat" rule: printNumber.induct)
  case (1 n)
  show ?case
  proof (cases "n < 10")
    case True
    then have "printNumber n 10 = [digit n]" by (subst printNumber.simps) simp
    then show ?thesis using digit_decimal [OF True] by simp
  next
    case False
    then have eq: "printNumber n 10 = printNumber (n div 10) 10 @ [digit (n mod 10)]"
      by (subst printNumber.simps) simp
    have "set (printNumber (n div 10) 10) \<subseteq> set ''0123456789''"
      using "1.hyps"(2) False by simp
    moreover have "digit (n mod 10) \<in> set ''0123456789''"
      by (rule digit_decimal) simp
    ultimately show ?thesis unfolding eq by simp
  qed
qed

lemma print_int_chars: "set (print_int n) \<subseteq> insert CHR ''-'' (set ''0123456789'')"
proof (cases "n < 0")
  case True
  then have "set (print_int n) = insert CHR ''-'' (set (printNumber (nat (- n)) 10))"
    by (simp add: print_int_def)
  then show ?thesis using printNumber_decimal_chars [of "nat (- n)"] by blast
next
  case False
  then have "set (print_int n) = set (printNumber (nat n) 10)"
    by (simp add: print_int_def)
  then show ?thesis using printNumber_decimal_chars [of "nat n"] by blast
qed

lemma printf_6d_chars:
  "set (printf_6d n) \<subseteq> insert CHR '' '' (insert CHR ''-'' (set ''0123456789''))"
proof -
  have "set (printf_6d n) \<subseteq> insert CHR '' '' (set (print_int n))"
  proof -
    have "set (replicate (6 - length (print_int n)) CHR '' '') \<subseteq> {CHR '' ''}"
      by (induction "6 - length (print_int n)") (simp_all add: set_replicate_conv_if)
    then show ?thesis unfolding printf_6d_def set_append by blast
  qed
  then show ?thesis using print_int_chars [of n] by blast
qed

lemma dumpRaw_entry_trace:
  "dumpRaw_entry lib results i s =
     s @ [Out (if i mod 2 = 0 then ''-'' else ''   +''),
          Out (printf_6d (sint (rawbuf_usecs lib results i)))]"
  by (simp add: dumpRaw_entry_def Serial_print_def)

lemma dumpRaw_entry_chars:
  "set (text_of (dumpRaw_entry lib results i []))
     \<subseteq> insert CHR ''+'' (insert CHR '' '' (insert CHR ''-'' (set ''0123456789'')))"
proof -
  have "set (text_of (dumpRaw_entry lib results i []))
          \<subseteq> insert CHR ''+'' (insert CHR '' '' (insert CHR ''-''
               (set (printf_6d (sint (rawbuf_usecs lib results i))))))"
    by (simp add: dumpRaw_entry_trace subset_insertI2)
  then show ?thesis
    using printf_6d_chars [of "sint (rawbuf_usecs lib results i)"] by blast
qed

lemma dumpRaw_entry_no_separator:
  "CHR '','' \<notin> set (text_of (dumpRaw_entry lib results i []))"
  "CHR 0x0D \<notin> set (text_of (dumpRaw_entry lib results i []))"
  "CHR 0x0A \<notin> set (text_of (dumpRaw_entry lib results i []))"
proof -
  have a: "CHR '','' \<notin> insert CHR ''+'' (insert CHR '' '' (insert CHR ''-'' (set ''0123456789'')))"
    by simp
  have b: "CHR 0x0D \<notin> insert CHR ''+'' (insert CHR '' '' (insert CHR ''-'' (set ''0123456789'')))"
    by simp
  have c: "CHR 0x0A \<notin> insert CHR ''+'' (insert CHR '' '' (insert CHR ''-'' (set ''0123456789'')))"
    by simp
  show "CHR '','' \<notin> set (text_of (dumpRaw_entry lib results i []))"
    using a dumpRaw_entry_chars [of lib results i] by blast
  show "CHR 0x0D \<notin> set (text_of (dumpRaw_entry lib results i []))"
    using b dumpRaw_entry_chars [of lib results i] by blast
  show "CHR 0x0A \<notin> set (text_of (dumpRaw_entry lib results i []))"
    using c dumpRaw_entry_chars [of lib results i] by blast
qed

lemma int_less_uint_pred: "(int i < uint (w :: 16 word) - 1) = (i + 1 < unat w)"
proof -
  have "uint w = int (unat w)" by simp
  then show ?thesis by linarith
qed

lemma dumpRaw_body_trace:
  "dumpRaw_body lib results i s =
     s @ (if i mod 100 = 0 then [Yield] else [])
       @ dumpRaw_entry lib results i []
       @ (if i + 1 < unat (rawlen results) then [Out '', ''] else [])
       @ (if i mod 8 = 0 then [Out CRLF] else [])"
  by (simp add: dumpRaw_body_def dumpRaw_entry_trace Serial_print_def Serial_println_def
        int_less_uint_pred Let_def)

lemma dumpRaw_body_append: "dumpRaw_body lib results i s = s @ dumpRaw_body lib results i []"
  by (simp add: dumpRaw_body_trace [of lib results i s] dumpRaw_body_trace [of lib results i "[]"])

lemma dumpRaw_loop_trace:
  "dumpRaw_loop lib results i s =
     s @ concat (map (\<lambda>j. dumpRaw_body lib results j []) [i..<unat (rawlen results)])"
proof (induction lib results i s rule: dumpRaw_loop.induct)
  case (1 lib results i s)
  show ?case
  proof (cases "i < unat (rawlen results)")
    case False
    then show ?thesis by (subst dumpRaw_loop.simps) simp
  next
    case True
    have "dumpRaw_loop lib results i s
            = dumpRaw_loop lib results (i + 1) (dumpRaw_body lib results i s)"
      using True by (subst dumpRaw_loop.simps) simp
    also have "\<dots> = dumpRaw_body lib results i s
             @ concat (map (\<lambda>j. dumpRaw_body lib results j []) [i + 1..<unat (rawlen results)])"
      using "1.IH" [OF True] .
    also have "\<dots> = s @ concat (map (\<lambda>j. dumpRaw_body lib results j []) [i..<unat (rawlen results)])"
      using True by (subst dumpRaw_body_append) (simp add: upt_conv_Cons)
    finally show ?thesis .
  qed
qed

lemma dumpRaw_trace:
  "dumpRaw lib results s =
     s @ [Out ''Timing['', Out (print_int (uint (rawlen results) - 1)), Out ('']: '' @ CRLF)]
       @ concat (map (\<lambda>j. dumpRaw_body lib results j []) [1..<unat (rawlen results)])
       @ [Out CRLF]"
  by (simp add: dumpRaw_def dumpRaw_loop_trace Serial_print_def Serial_println_def Let_def)

lemma text_of_concat_map:
  "text_of (concat (map f xs)) = concat (map (\<lambda>x. text_of (f x)) xs)"
  by (induction xs) (simp_all add: text_of_append)

lemma dumpRaw_body_text:
  "text_of (dumpRaw_body lib results i []) =
     text_of (dumpRaw_entry lib results i [])
     @ (if i + 1 < unat (rawlen results) then '', '' else [])
     @ (if i mod 8 = 0 then CRLF else [])"
  by (simp add: dumpRaw_body_trace [of lib results i "[]"] text_of_append)

lemma dumpRaw_split:
  assumes "1 \<le> k" and "k < unat (rawlen results)"
  shows "dumpRaw lib results s =
     (s @ [Out ''Timing['', Out (print_int (uint (rawlen results) - 1)), Out ('']: '' @ CRLF)]
        @ concat (map (\<lambda>j. dumpRaw_body lib results j []) [1..<k]))
     @ dumpRaw_body lib results k []
     @ (concat (map (\<lambda>j. dumpRaw_body lib results j []) [k + 1..<unat (rawlen results)])
        @ [Out CRLF])"
proof -
  have "[1..<unat (rawlen results)] = [1..<k] @ [k..<unat (rawlen results)]"
    using assms upt_add_eq_append [of 1 k "unat (rawlen results) - k"] by simp
  also have "[k..<unat (rawlen results)] = k # [k + 1..<unat (rawlen results)]"
    using assms by (simp add: upt_conv_Cons)
  finally show ?thesis
    by (simp add: dumpRaw_trace)
qed

lemma dumpRaw_body_yield:
  "i mod 100 = 0 \<Longrightarrow>
     dumpRaw_body lib results i [] =
       Yield # dumpRaw_entry lib results i []
       @ (if i + 1 < unat (rawlen results) then [Out '', ''] else [])
       @ (if i mod 8 = 0 then [Out CRLF] else [])"
  by (simp add: dumpRaw_body_trace [of lib results i "[]"])

lemma dumpRaw_yield_before:
  assumes "1 \<le> k" and "k < unat (rawlen results)" and "k mod 100 = 0"
  shows "\<exists>rest. dumpRaw lib results s =
     (s @ [Out ''Timing['', Out (print_int (uint (rawlen results) - 1)), Out ('']: '' @ CRLF)]
        @ concat (map (\<lambda>j. dumpRaw_body lib results j []) [1..<k]))
     @ Yield # dumpRaw_entry lib results k [] @ rest"
  by (simp only: dumpRaw_split [OF assms(1,2)] dumpRaw_body_yield [OF assms(3)]
        append_Cons append_assoc) blast

lemma rawlen_capture_101: "unat (rawlen (capture (replicate 101 500))) = 101"
  by (simp add: capture_def)

section \<open>Unfolding the iterations on given inputs\<close>

lemma getCookedLength_loop_stop:
  "\<not> int i < uint (rawlen results) - 1 \<Longrightarrow> getCookedLength_loop lib results i len = len"
  by (subst getCookedLength_loop.simps) simp

lemma getCookedLength_loop_step:
  "int i < uint (rawlen results) - 1 \<Longrightarrow>
     getCookedLength_loop lib results i len =
       getCookedLength_loop lib results (i + 1)
         (ucast ((ucast len :: 32 word) + (rawbuf_usecs lib results i div UINT16_MAX) * 2))"
  by (subst getCookedLength_loop.simps) simp

lemma dumpCode_loop_stop:
  "\<not> i < unat (rawlen results) \<Longrightarrow> dumpCode_loop lib results i s = s"
  by (subst dumpCode_loop.simps) simp

lemma dumpCode_loop_step:
  "i < unat (rawlen results) \<Longrightarrow>
     dumpCode_loop lib results i s = dumpCode_loop lib results (i + 1) (dumpCode_body lib results i s)"
  by (subst dumpCode_loop.simps) simp

lemma replicate_numeral_unfold:
  "replicate (numeral k) x = x # replicate (pred_numeral k) x"
  by (simp add: numeral_eq_Suc)

lemmas eval_simps =
  capture_def lib_tick1_def lib_tick2_def rawbuf_usecs_def ticks_to_usecs_def UINT16_MAX_def
  getCookedLength_def getCookedLength_loop_stop getCookedLength_loop_step
  dumpCode_loop_stop dumpCode_loop_step dumpCode_body_def dumpCode_chunk_stop dumpCode_chunk_step
  dumpCode_array_def dumpCode_known_def dumpCode_def encoding_def
  Serial_print_def Serial_println_def print_int_def printNumber.simps digit_def
  serialPrintUint64_spec_def DEC_def HEX_def Let_def replicate_numeral_unfold

section \<open>Facts about dumpCode and dumpInfo\<close>

lemma dumpCode_chunk_fst_indep: "fst (dumpCode_chunk d s) = fst (dumpCode_chunk d t)"
proof -
  have "unat (fst (dumpCode_chunk d s)) = unat (fst (dumpCode_chunk d t))"
    using dumpCode_chunk_fst [of d s] dumpCode_chunk_fst [of d t] by linarith
  then show ?thesis by (simp add: word_unat_eq_iff)
qed

lemma dumpCode_body_trace:
  "dumpCode_body lib results i s =
     s @ replicate ((unat (rawbuf_usecs lib results i) - 1) div 65535) (Out ''65535, 0'')
       @ [Out (printNumber (unat (fst (dumpCode_chunk (rawbuf_usecs lib results i) []))) 10)]
       @ (if i + 1 < unat (rawlen results) then [Out '', ''] else [])
       @ (if i mod 2 = 0 then [Out '' ''] else [])"
proof -
  have "dumpCode_chunk (rawbuf_usecs lib results i) s =
          (fst (dumpCode_chunk (rawbuf_usecs lib results i) []),
           s @ replicate ((unat (rawbuf_usecs lib results i) - 1) div 65535) (Out ''65535, 0''))"
    using dumpCode_chunk_eq [of "rawbuf_usecs lib results i" s]
          dumpCode_chunk_fst_indep [of "rawbuf_usecs lib results i" s "[]"] by simp
  then show ?thesis
    by (simp add: dumpCode_body_def Serial_print_def int_less_uint_pred DEC_def)
qed

lemma dumpCode_body_append: "dumpCode_body lib results i s = s @ dumpCode_body lib results i []"
  by (simp add: dumpCode_body_trace [of lib results i s] dumpCode_body_trace [of lib results i "[]"])

lemma dumpCode_loop_trace:
  "dumpCode_loop lib results i s =
     s @ concat (map (\<lambda>j. dumpCode_body lib results j []) [i..<unat (rawlen results)])"
proof (induction lib results i s rule: dumpCode_loop.induct)
  case (1 lib results i s)
  show ?case
  proof (cases "i < unat (rawlen results)")
    case False
    then show ?thesis by (simp add: dumpCode_loop_stop)
  next
    case True
    have "dumpCode_loop lib results i s
            = dumpCode_loop lib results (i + 1) (dumpCode_body lib results i s)"
      by (rule dumpCode_loop_step [OF True])
    also have "\<dots> = dumpCode_body lib results i s
             @ concat (map (\<lambda>j. dumpCode_body lib results j []) [i + 1..<unat (rawlen results)])"
      using "1.IH" [OF True] .
    also have "\<dots> = s @ concat (map (\<lambda>j. dumpCode_body lib results j []) [i..<unat (rawlen results)])"
      using True by (subst dumpCode_body_append) (simp add: upt_conv_Cons)
    finally show ?thesis .
  qed
qed

lemma encoding_trace:
  "encoding results s =
     s @ Out (encoding_name (decode_type results))
         # (if repeat results then [Out '' (Repeat)''] else [])"
  by (simp add: encoding_def Serial_print_def)

lemma dumpCode_array_trace:
  "dumpCode_array lib results s =
     s @ [Out ''uint16_t '', Out ''rawData['',
          Out (print_int (uint (getCookedLength lib results))), Out ''] = {'']
       @ concat (map (\<lambda>j. dumpCode_body lib results j []) [1..<unat (rawlen results)])
       @ [Out ''};'', Out ''  // '', Out (encoding_name (decode_type results))]
       @ (if repeat results then [Out '' (Repeat)''] else [])
       @ [Out '' '', Out (serialPrintUint64 lib (value results) 16), Out CRLF]"
  by (simp add: dumpCode_array_def dumpCode_loop_trace encoding_trace Serial_print_def
        Serial_println_def HEX_def)

lemma dumpCode_known_trace:
  "dumpCode_known lib results s =
     s @ (if decode_type results \<noteq> UNKNOWN
          then (if address results > 0 \<or> command results > 0
                then [Out ''uint32_t address = 0x'',
                      Out (printNumber (unat (address results)) 16), Out ('';'' @ CRLF),
                      Out ''uint32_t command = 0x'',
                      Out (printNumber (unat (command results)) 16), Out ('';'' @ CRLF)]
                else [])
               @ [Out ''uint64_t data = 0x'',
                  Out (serialPrintUint64 lib (value results) 16), Out ('';'' @ CRLF)]
          else [])"
  by (simp add: dumpCode_known_def Serial_print_def Serial_println_def HEX_def)

lemma dumpCode_known_append:
  "dumpCode_known lib results s = s @ dumpCode_known lib results []"
  by (simp add: dumpCode_known_trace [of lib results s] dumpCode_known_trace [of lib results "[]"])

lemma dumpCode_array_append:
  "dumpCode_array lib results s = s @ dumpCode_array lib results []"
  by (simp add: dumpCode_array_trace [of lib results s] dumpCode_array_trace [of lib results "[]"])

lemma dumpCode_split:
  "dumpCode lib results s = s @ dumpCode_array lib results [] @ dumpCode_known lib results []"
proof -
  have "dumpCode lib results s = dumpCode_array lib results s @ dumpCode_known lib results []"
    unfolding dumpCode_def by (rule dumpCode_known_append)
  also have "\<dots> = (s @ dumpCode_array lib results []) @ dumpCode_known lib results []"
    by (simp only: dumpCode_array_append [of lib results s])
  finally show ?thesis by simp
qed







lemma dumpCode_chunk_small: "unat d \<le> 65535 \<Longrightarrow> dumpCode_chunk d s = (d, s)"
  by (rule dumpCode_chunk_stop) (simp add: UINT16_MAX_def word_less_nat_alt)

lemma dumpCode_chunk_once:
  assumes "65535 < unat d" and "unat d \<le> 131070"
  shows "dumpCode_chunk d s = (d - 65535, s @ [Out ''65535, 0''])"
proof -
  have big: "UINT16_MAX < d"
    using assms(1) by (simp add: UINT16_MAX_def word_less_nat_alt)
  have "unat (d - UINT16_MAX) \<le> 65535"
    using chunk_big(2) [OF big] assms(2) by simp
  then have "dumpCode_chunk (d - UINT16_MAX) (s @ [Out ''65535, 0''])
               = (d - UINT16_MAX, s @ [Out ''65535, 0''])"
    by (rule dumpCode_chunk_small)
  then show ?thesis
    using dumpCode_chunk_step [OF big, of s] by (simp add: UINT16_MAX_def)
qed





lemma capture_in_bounds: "length ticks < 65536 \<Longrightarrow> rawbuf_in_bounds (capture ticks)"
  by (simp add: rawbuf_in_bounds_def capture_def unat_of_nat)

lemma printNumber_DEC_nonempty: "printNumber n DEC \<noteq> []"
  by (subst printNumber.simps) (simp add: DEC_def)

lemma loop_trace:
  "loop lib results s = s @ [Delay 2000, Out (''send YAMATO'' @ CRLF), SendYamato something]"
  by (simp add: loop_def Serial_println_def)

section \<open>The claims\<close>

text \<open>
  C2, as the code has it: for every 32-bit duration \<open>d\<close> the chunking loop writes \<open>k\<close>
  fillers \<open>65535, 0\<close> and leaves a final value \<open>r\<close> with \<open>k * 65535 + r = d\<close>, so
  counting 65535 for each filler and adding the final value gives back \<open>d\<close>; \<open>r\<close> is
  0 only for \<open>d = 0\<close>. For every entry, \<open>dumpCode\<close> writes these fillers for the
  duration of the entry and then, in every case, the final value in decimal (at least
  one digit, also when it is 0), before the separators of the entry.
\<close>

theorem dumpCode_round_trip:
  "(\<exists>k r. dumpCode_chunk d s = (r, s @ replicate k (Out ''65535, 0''))
          \<and> k * 65535 + unat r = unat d
          \<and> (r = 0) = (d = 0))
   \<and> (\<exists>k (r :: 32 word). dumpCode_body lib results i s =
                 s @ replicate k (Out ''65535, 0'')
                   @ Out (printNumber (unat r) DEC)
                     # (if i + 1 < unat (rawlen results) then [Out '', ''] else [])
                     @ (if i mod 2 = 0 then [Out '' ''] else [])
          \<and> printNumber (unat r) DEC \<noteq> []
          \<and> k * 65535 + unat r = unat (rawbuf_usecs lib results i)
          \<and> (r = 0) = (rawbuf_usecs lib results i = 0))"
proof -
  have chunk: "\<exists>k r. dumpCode_chunk e t = (r, t @ replicate k (Out ''65535, 0''))
          \<and> k * 65535 + unat r = unat e
          \<and> (r = 0) = (e = 0)
          \<and> r = fst (dumpCode_chunk e []) \<and> k = (unat e - 1) div 65535" for e t
  proof -
    let ?k = "(unat e - 1) div 65535" and ?r = "fst (dumpCode_chunk e t)"
    have sum: "?k * 65535 + unat ?r = unat e"
      using dumpCode_chunk_fst [of e t] by simp
    have zero: "(?r = 0) = (e = 0)"
    proof
      assume "?r = 0"
      then show "e = 0" using dumpCode_chunk_fst_pos [of e t] by blast
    next
      assume "e = 0"
      then have "unat ?r = 0" using sum by simp
      then show "?r = 0" by (simp add: unsigned_eq_0_iff)
    qed
    show ?thesis
      using dumpCode_chunk_eq [of e t] sum zero dumpCode_chunk_fst_indep [of e t "[]"] by blast
  qed
  have first: "\<exists>k r. dumpCode_chunk d s = (r, s @ replicate k (Out ''65535, 0''))
          \<and> k * 65535 + unat r = unat d \<and> (r = 0) = (d = 0)"
    using chunk [of d s] by blast
  obtain k r where kr: "k * 65535 + unat r = unat (rawbuf_usecs lib results i)"
      "(r = 0) = (rawbuf_usecs lib results i = 0)"
      "r = fst (dumpCode_chunk (rawbuf_usecs lib results i) [])"
      "k = (unat (rawbuf_usecs lib results i) - 1) div 65535"
    using chunk [of "rawbuf_usecs lib results i" s] by blast
  have body: "dumpCode_body lib results i s =
                 s @ replicate k (Out ''65535, 0'')
                   @ Out (printNumber (unat r) DEC)
                     # (if i + 1 < unat (rawlen results) then [Out '', ''] else [])
                     @ (if i mod 2 = 0 then [Out '' ''] else [])"
    by (simp add: dumpCode_body_trace [of lib results i s] kr(3,4) DEC_def)
  have second: "\<exists>k (r :: 32 word). dumpCode_body lib results i s =
                 s @ replicate k (Out ''65535, 0'')
                   @ Out (printNumber (unat r) DEC)
                     # (if i + 1 < unat (rawlen results) then [Out '', ''] else [])
                     @ (if i mod 2 = 0 then [Out '' ''] else [])
          \<and> printNumber (unat r) DEC \<noteq> []
          \<and> k * 65535 + unat r = unat (rawbuf_usecs lib results i)
          \<and> (r = 0) = (rawbuf_usecs lib results i = 0)"
    by (rule exI [where x = k], rule exI [where x = r])
       (intro conjI body printNumber_DEC_nonempty kr(1) kr(2))
  from first second show ?thesis by (rule conjI)
qed

text \<open>
  C2 as stated fails at \<open>d = 65536\<close>, an exact multiple of \<open>UINT16_MAX + 1\<close>: the loop
  writes one filler and leaves the final value 1, not 0.
\<close>

theorem dumpCode_chunk_65536_final_is_1:
  "unat (65536 :: 32 word) mod (unat UINT16_MAX + 1) = 0
   \<and> dumpCode_chunk 65536 [] = (1, [Out ''65535, 0''])
   \<and> fst (dumpCode_chunk 65536 []) \<noteq> 0"
  by (simp add: dumpCode_chunk_stop dumpCode_chunk_step UINT16_MAX_def)

text \<open>
  C8: the product of a 16-bit tick and the 16-bit unit, taken in 32 bits, is the exact
  product of the two numbers; nothing is lost modulo \<open>2^16\<close> (or modulo \<open>2^32\<close>), for
  every tick up to 65535. This is the value \<open>getCookedLength\<close>, \<open>dumpRaw\<close> and
  \<open>dumpCode\<close> compute from \<open>rawbuf[i]\<close>.
\<close>

theorem ticks_to_usecs_exact:
  "unat (ticks_to_usecs tick unit) = unat tick * unat unit
   \<and> unat (rawbuf_usecs lib results i) = unat (rawbuf results ! i) * unat (RAWTICK lib)"
  by (simp add: rawbuf_usecs_def unat_ticks_to_usecs)

text \<open>
  C10: for every 32-bit duration the chunking loop returns (the function is total: its
  recursion is well-founded on the value of \<open>usecs\<close>), after at most 65536 passes; each
  pass writes the filler \<open>65535, 0\<close>, the constant being \<open>UINT16_MAX = 65535\<close>, and the
  final value is at most 65535. Every number written fits in 16 bits.
\<close>

theorem dumpCode_chunk_returns_uint16:
  "\<exists>k r. dumpCode_chunk d s = (r, s @ replicate k (Out ''65535, 0''))
         \<and> k \<le> 65536
         \<and> print_int (sint UINT16_MAX) @ '', 0'' = ''65535, 0''
         \<and> unat UINT16_MAX < 2 ^ 16
         \<and> unat r < 2 ^ 16"
proof -
  have "unat (fst (dumpCode_chunk d s)) < 2 ^ 16"
    using dumpCode_chunk_fst_le [of d s] by simp
  moreover have "unat UINT16_MAX < 2 ^ 16"
    by (simp add: UINT16_MAX_def)
  ultimately show ?thesis
    using dumpCode_chunk_eq [of d s] chunk_count_le [of d] filler_text by blast
qed

text \<open>
  C6: the text of \<open>dumpRaw\<close> is the header line, then for each entry \<open>i\<close> from 1 to
  \<open>rawlen - 1\<close> its marker and value, a comma and a space unless it is the last entry,
  and a line end exactly when \<open>i\<close> is a multiple of 8; then a final line end. The
  marker and the value hold no comma and no line end themselves, so the only line ends
  inside the listing are after every 8th entry and no comma follows the last entry.
\<close>

theorem dumpRaw_newline_every_8th_no_trailing_comma:
  "text_of (dumpRaw lib results []) =
     ''Timing['' @ print_int (uint (rawlen results) - 1) @ '']: '' @ CRLF
     @ concat (map (\<lambda>i. text_of (dumpRaw_entry lib results i [])
                          @ (if i + 1 < unat (rawlen results) then '', '' else [])
                          @ (if i mod 8 = 0 then CRLF else []))
                 [1..<unat (rawlen results)])
     @ CRLF
   \<and> CHR '','' \<notin> set (text_of (dumpRaw_entry lib results i []))
   \<and> CHR 0x0D \<notin> set (text_of (dumpRaw_entry lib results i []))
   \<and> CHR 0x0A \<notin> set (text_of (dumpRaw_entry lib results i []))"
proof -
  have "text_of (dumpRaw lib results []) =
     ''Timing['' @ print_int (uint (rawlen results) - 1) @ '']: '' @ CRLF
     @ concat (map (\<lambda>i. text_of (dumpRaw_body lib results i [])) [1..<unat (rawlen results)])
     @ CRLF"
    by (simp add: dumpRaw_trace text_of_append text_of_concat_map)
  then show ?thesis
    using dumpRaw_entry_no_separator [of lib results i] by (simp add: dumpRaw_body_text)
qed

text \<open>
  C9: for every entry \<open>i\<close> of the traversal (\<open>1 \<le> i < rawlen\<close>): if \<open>i\<close> is a multiple
  of 100, the trace of \<open>dumpRaw\<close> has a \<open>yield()\<close> after the entries before \<open>i\<close> and
  immediately before the marker and value of entry \<open>i\<close>; and from entry 100 on, some
  entry \<open>k\<close> with \<open>k \<le> i < k + 100\<close> has such a yield before it, so at most 100
  entries in a row are written without a yield.
\<close>

theorem dumpRaw_yields_every_100th:
  assumes "1 \<le> i" and "i < unat (rawlen results)"
  shows "(i mod 100 = 0 \<longrightarrow>
           (\<exists>rest. dumpRaw lib results s =
              (s @ [Out ''Timing['', Out (print_int (uint (rawlen results) - 1)),
                    Out ('']: '' @ CRLF)]
                 @ concat (map (\<lambda>j. dumpRaw_body lib results j []) [1..<i]))
              @ Yield # dumpRaw_entry lib results i [] @ rest))
       \<and> (100 \<le> i \<longrightarrow>
           (\<exists>k rest. k \<le> i \<and> i < k + 100 \<and> dumpRaw lib results s =
              (s @ [Out ''Timing['', Out (print_int (uint (rawlen results) - 1)),
                    Out ('']: '' @ CRLF)]
                 @ concat (map (\<lambda>j. dumpRaw_body lib results j []) [1..<k]))
              @ Yield # dumpRaw_entry lib results k [] @ rest))"
proof (intro conjI impI)
  assume m: "i mod 100 = 0"
  show "\<exists>rest. dumpRaw lib results s =
              (s @ [Out ''Timing['', Out (print_int (uint (rawlen results) - 1)),
                    Out ('']: '' @ CRLF)]
                 @ concat (map (\<lambda>j. dumpRaw_body lib results j []) [1..<i]))
              @ Yield # dumpRaw_entry lib results i [] @ rest"
    by (rule dumpRaw_yield_before [OF assms m])
next
  assume big: "100 \<le> i"
  let ?k = "100 * (i div 100)"
  have k: "1 \<le> ?k" "?k < unat (rawlen results)" "?k mod 100 = 0" "?k \<le> i" "i < ?k + 100"
    using big assms by simp_all
  obtain rest where "dumpRaw lib results s =
              (s @ [Out ''Timing['', Out (print_int (uint (rawlen results) - 1)),
                    Out ('']: '' @ CRLF)]
                 @ concat (map (\<lambda>j. dumpRaw_body lib results j []) [1..<?k]))
              @ Yield # dumpRaw_entry lib results ?k [] @ rest"
    using dumpRaw_yield_before [OF k(1,2,3), of lib s] by (elim exE)
  with k(4,5) show "\<exists>k rest. k \<le> i \<and> i < k + 100 \<and> dumpRaw lib results s =
              (s @ [Out ''Timing['', Out (print_int (uint (rawlen results) - 1)),
                    Out ('']: '' @ CRLF)]
                 @ concat (map (\<lambda>j. dumpRaw_body lib results j []) [1..<k]))
              @ Yield # dumpRaw_entry lib results k [] @ rest"
    by blast
qed

theorem dumpRaw_yields_every_100th_witness:
  "(1::nat) \<le> 100 \<and> 100 < unat (rawlen (capture (replicate 101 500)))
   \<and> (100::nat) mod 100 = 0
   \<and> (\<exists>rest. dumpRaw lib_tick2 (capture (replicate 101 500)) [] =
              ([] @ [Out ''Timing['',
                     Out (print_int (uint (rawlen (capture (replicate 101 500))) - 1)),
                     Out ('']: '' @ CRLF)]
                 @ concat (map (\<lambda>j. dumpRaw_body lib_tick2 (capture (replicate 101 500)) j [])
                             [1..<100]))
              @ Yield # dumpRaw_entry lib_tick2 (capture (replicate 101 500)) 100 [] @ rest)"
proof -
  have h1: "(1::nat) \<le> 100" by simp
  have h2: "100 < unat (rawlen (capture (replicate 101 500)))"
    by (simp add: rawlen_capture_101)
  have h3: "(100::nat) mod 100 = 0" by simp
  have "\<exists>rest. dumpRaw lib_tick2 (capture (replicate 101 500)) [] =
              ([] @ [Out ''Timing['',
                     Out (print_int (uint (rawlen (capture (replicate 101 500))) - 1)),
                     Out ('']: '' @ CRLF)]
                 @ concat (map (\<lambda>j. dumpRaw_body lib_tick2 (capture (replicate 101 500)) j [])
                             [1..<100]))
              @ Yield # dumpRaw_entry lib_tick2 (capture (replicate 101 500)) 100 [] @ rest"
    by (rule dumpRaw_yields_every_100th [OF h1 h2, of lib_tick2 "[]", THEN conjunct1, rule_format, OF h3])
  with h1 h2 h3 show ?thesis by (intro conjI)
qed

text \<open>
  C1 on the input \<open>rawbuf = [40000, 100, 100]\<close>, \<open>rawlen = 3\<close>, two microseconds per
  tick: \<open>getCookedLength\<close> walks the entries 0 and 1, so it counts the leading entry
  (80000 microseconds, two extra places) and returns 4; \<open>dumpCode\<close> walks the entries 1
  and 2 and writes the two values 200 and 200 into an array declared with 4 elements.
\<close>

theorem getCookedLength_counts_leading_entry:
  "rawbuf_in_bounds (capture [40000, 100, 100])
   \<and> getCookedLength lib_tick2 (capture [40000, 100, 100]) = 4
   \<and> text_of (dumpCode lib_tick2 (capture [40000, 100, 100]) [])
     = ''uint16_t rawData[4] = {200, 200 };  // UNKNOWN 0000000000000000'' @ CRLF"
  by (simp add: eval_simps rawbuf_in_bounds_def)

text \<open>
  C3 on a duration of 65536 microseconds (tick 32768, two microseconds per tick): the
  loop writes the filler \<open>65535, 0\<close> and then the final value 1 with nothing between,
  so the text between the braces is \<open>65535, 01\<close>: two comma-separated items, not the
  three values 65535, 0, 1.
\<close>

theorem dumpCode_filler_fused_with_final_value:
  "rawbuf_in_bounds (capture [3846, 32768])
   \<and> unat (rawbuf_usecs lib_tick2 (capture [3846, 32768]) 1) = 65536
   \<and> text_of (dumpCode_body lib_tick2 (capture [3846, 32768]) 1 []) = ''65535, 01''
   \<and> text_of (dumpCode lib_tick2 (capture [3846, 32768]) [])
     = ''uint16_t rawData[1] = {65535, 01};  // UNKNOWN 0000000000000000'' @ CRLF"
  by (simp add: eval_simps rawbuf_in_bounds_def)

text \<open>
  C4, as the code has it: for the ticks \<open>[3846, 1392, 618]\<close>, one microsecond per tick,
  the type \<open>UNKNOWN\<close> and no repeat, \<open>dumpCode\<close> writes the array with a space after
  the value at the even index 2, then the comment with the name \<open>UNKNOWN\<close> and whatever
  \<open>serialPrintUint64\<close> writes for the value in base 16 (no \<open>0x\<close> before it and no
  semicolon after it), then a line end, and no declaration of address, command or data.
\<close>

theorem dumpCode_scenario_A:
  "text_of (dumpCode \<lparr>RAWTICK = 1, serialPrintUint64 = p\<rparr>
              \<lparr>decode_type = UNKNOWN, value = v, address = a, command = c, bits = b,
               rawbuf = [3846, 1392, 618], rawlen = 3, overflow = ov, repeat = False\<rparr> [])
   = ''uint16_t rawData[2] = {1392, 618 };  // UNKNOWN '' @ p v 16 @ CRLF"
  by (simp add: eval_simps)

text \<open>
  C4 as stated fails: with a \<open>serialPrintUint64\<close> that writes 16 zero-padded digits
  the text has \<open>618 }\<close> where the claim has \<open>618}\<close>, and its comment ends
  \<open>UNKNOWN 0000000000000000\<close>, not \<open>UNKNOWN 0x0000000000000000;\<close>.
\<close>

theorem dumpCode_scenario_A_differs:
  "text_of (dumpCode lib_tick1 (capture [3846, 1392, 618]) [])
     = ''uint16_t rawData[2] = {1392, 618 };  // UNKNOWN 0000000000000000'' @ CRLF
   \<and> text_of (dumpCode lib_tick1 (capture [3846, 1392, 618]) [])
     \<noteq> ''uint16_t rawData[2] = {1392, 618};  // UNKNOWN 0x0000000000000000;''
   \<and> text_of (dumpCode lib_tick1 (capture [3846, 1392, 618]) [])
     \<noteq> ''uint16_t rawData[2] = {1392, 618};  // UNKNOWN 0x0000000000000000;'' @ CRLF"
  by (simp add: eval_simps CRLF_def)

text \<open>
  C5: for every capture whose type is not \<open>UNKNOWN\<close>, the text of \<open>dumpCode\<close> is the
  array declaration followed by the declarations of \<open>address\<close> and \<open>command\<close> exactly
  when one of them is greater than 0 (by neither when both are 0), followed in every case
  by the declaration of \<open>data\<close>.
\<close>

theorem dumpCode_known_declarations:
  assumes "decode_type results \<noteq> UNKNOWN"
  shows "text_of (dumpCode lib results []) =
           text_of (dumpCode_array lib results [])
           @ (if address results > 0 \<or> command results > 0
              then ''uint32_t address = 0x'' @ printNumber (unat (address results)) 16
                   @ '';'' @ CRLF
                   @ ''uint32_t command = 0x'' @ printNumber (unat (command results)) 16
                   @ '';'' @ CRLF
              else [])
           @ ''uint64_t data = 0x'' @ serialPrintUint64 lib (value results) 16 @ '';'' @ CRLF"
  using assms
  by (simp add: dumpCode_split [of lib results "[]"] dumpCode_known_trace [of lib results "[]"]
        text_of_append)

theorem dumpCode_known_declarations_witness:
  "decode_type ((capture [3846, 1392, 618])\<lparr>decode_type := YAMATO, value := 1\<rparr>) \<noteq> UNKNOWN
   \<and> text_of (dumpCode lib_tick2
                 ((capture [3846, 1392, 618])\<lparr>decode_type := YAMATO, value := 1\<rparr>) []) =
       text_of (dumpCode_array lib_tick2
                 ((capture [3846, 1392, 618])\<lparr>decode_type := YAMATO, value := 1\<rparr>) [])
       @ ''uint64_t data = 0x0000000000000001;'' @ CRLF"
proof -
  have h: "decode_type ((capture [3846, 1392, 618])\<lparr>decode_type := YAMATO, value := 1\<rparr>)
             \<noteq> UNKNOWN"
    by simp
  show ?thesis
    using h dumpCode_known_declarations [OF h, of lib_tick2]
    by (simp add: capture_def lib_tick2_def serialPrintUint64_spec_def printNumber.simps
          digit_def replicate_numeral_unfold)
qed



end
